theory Spec2Isabelle
  imports Main
begin

section \<open>JavaScript values handled by the adapter\<close>

text \<open>
  The adapter of \<^verbatim>\<open>src/PostgresConnection.js\<close> passes JavaScript values between its
  caller and the \<^verbatim>\<open>pg\<close> driver. The values that occur are modelled by one datatype;
  an object is the list of its own properties. A number \<open>JNum n\<close> is an integer that
  a double holds exactly, of magnitude at most \<open>2 ^ 53 - 1\<close>; fractions, NaN and larger
  numbers are outside the model (no claim depends on them). Characters are the code
  units of ASCII text.
\<close>

datatype js_value =
    JUndefined
  | JNull
  | JBool bool
  | JNum int
  | JStr string
  | JArr "js_value list"
  | JObj "(string \<times> js_value) list"

text \<open>
  \<^verbatim>\<open>type.object\<close>, \<^verbatim>\<open>type.null\<close> and \<^verbatim>\<open>type.string\<close> come from the library
  \<^verbatim>\<open>ee-types\<close> (a dependency, not part of this repository). They test the class tag
  of a value: only a plain object is an object (an array and \<^verbatim>\<open>null\<close> are not), only
  \<^verbatim>\<open>null\<close> is null (\<^verbatim>\<open>undefined\<close> is not).
\<close>

fun type_object :: "js_value \<Rightarrow> bool" where
  "type_object (JObj kvs) = True"
| "type_object v = False"

fun type_null :: "js_value \<Rightarrow> bool" where
  "type_null JNull = True"
| "type_null v = False"

fun type_string :: "js_value \<Rightarrow> bool" where
  "type_string (JStr s) = True"
| "type_string v = False"

text \<open>Truthiness, as \<^verbatim>\<open>!x\<close>, \<^verbatim>\<open>x ? a : b\<close> and \<^verbatim>\<open>x && y\<close> test it.\<close>

fun truthy :: "js_value \<Rightarrow> bool" where
  "truthy JUndefined = False"
| "truthy JNull = False"
| "truthy (JBool b) = b"
| "truthy (JNum n) = (n \<noteq> 0)"
| "truthy (JStr s) = (s \<noteq> [])"
| "truthy (JArr xs) = True"
| "truthy (JObj kvs) = True"

text \<open>
  Reading a property. A missing property reads as \<^verbatim>\<open>undefined\<close>. The adapter reads
  \<^verbatim>\<open>command\<close> and \<^verbatim>\<open>rows\<close> of a result object, and \<^verbatim>\<open>length\<close> and element
  \<^verbatim>\<open>0\<close> of its rows; it reads them only of truthy values, so the reads of
  \<^verbatim>\<open>null\<close> and \<^verbatim>\<open>undefined\<close> (which throw) are never reached.
\<close>

fun get_prop :: "js_value \<Rightarrow> string \<Rightarrow> js_value" where
  "get_prop (JObj kvs) k = (case map_of kvs k of None \<Rightarrow> JUndefined | Some v \<Rightarrow> v)"
| "get_prop (JArr xs) k =
     (if k = ''length'' then JNum (int (length xs))
      else if k = ''0'' then (case xs of [] \<Rightarrow> JUndefined | x # _ \<Rightarrow> x)
      else JUndefined)"
| "get_prop (JStr s) k =
     (if k = ''length'' then JNum (int (length s))
      else if k = ''0'' then (case s of [] \<Rightarrow> JUndefined | c # _ \<Rightarrow> JStr [c])
      else JUndefined)"
| "get_prop v k = JUndefined"

section \<open>Errors, promises and the driver\<close>

text \<open>
  An error object of the driver: its \<^verbatim>\<open>code\<close> property (absent for errors without
  one) and its message.
\<close>

record driver_error =
  code :: "string option"
  message :: string

text \<open>
  What the adapter hands to its caller as an error. The first three constructors are
  the classes of \<^verbatim>\<open>related-error\<close> wrapped around the driver's error; \<open>DriverError\<close>
  is the driver's error object passed on as it came. The others are the plain
  \<^verbatim>\<open>Error\<close> objects the adapter creates itself, named by their message:
  \<open>UnexpectedReturnValue\<close> is \<^verbatim>\<open>unexpected return value from pg driver!\<close>,
  \<open>InvalidLockType t\<close> is \<^verbatim>\<open>Invalid or not supported lock type t!\<close>,
  \<open>CannotEscapeId v\<close> is \<^verbatim>\<open>Cannot escape id v!\<close>,
  \<open>CannotStartTransaction\<close> is \<^verbatim>\<open>Cannot start transaction, the connection has ended!\<close>.
  \<open>TypeError\<close> is what JavaScript throws when a method of the deleted
  \<^verbatim>\<open>this.connection\<close> is called.
\<close>

datatype error =
    InvalidCredentialsError driver_error
  | FailedToConnectError driver_error
  | DuplicateKeyError driver_error
  | DriverError driver_error
  | UnexpectedReturnValue
  | InvalidLockType string
  | CannotEscapeId js_value
  | CannotStartTransaction
  | ConnectionEnded
  | TypeError

text \<open>The state of a promise; \<open>Unsettled\<close> is a promise whose callback never ran.\<close>

datatype 'a promise = Resolved 'a | Rejected error | Unsettled

text \<open>
  The query context (\<^verbatim>\<open>related-query-context\<close>): the fields the adapter reads.
  \<open>ast\<close> is the truthiness of its \<^verbatim>\<open>ast\<close> property.
\<close>

record query_context =
  sql :: string
  values' :: "js_value list"
  ast :: bool
  mode :: "string option"

text \<open>
  One answer of the driver to \<^verbatim>\<open>connection.query\<close>: the arguments \<^verbatim>\<open>(err, data)\<close>
  it calls the callback with.
\<close>

datatype driver_reply = Reply "driver_error option" js_value

text \<open>
  The driver handle \<^verbatim>\<open>this.connection\<close> (a \<^verbatim>\<open>pg.Client\<close>). The driver is outside
  this repository, so what it answers is a parameter of the model: \<open>script\<close> lists its
  answers to the coming calls of \<^verbatim>\<open>query\<close>, in order; when the list is empty the
  driver does not answer. \<open>escapeLiteral\<close> and \<open>escapeIdentifier\<close> are the escaping
  primitives of the handle, \<open>end_listeners\<close> the callbacks registered for its
  \<^verbatim>\<open>end\<close> event with \<^verbatim>\<open>once\<close>.
\<close>

record client_options =
  user :: string
  password :: "string option"
  host :: string
  port :: nat
  database :: "string option"

record pg_client =
  options :: client_options
  script :: "driver_reply list"
  escapeLiteral :: "string \<Rightarrow> string"
  escapeIdentifier :: "string \<Rightarrow> string"
  end_listeners :: "nat list"

text \<open>
  What the adapter does to its collaborators, in the order it does it: calls of the
  driver handle, calls of methods inherited from the base class
  \<^verbatim>\<open>related-db-connection\<close>, invocations of callbacks, and the diagnostic log.
\<close>

datatype event =
    DriverQuery string "js_value list"
  | DriverEnd
  | DriverOnceEnd nat
  | SuperEmitError error
  | SuperEnd "error option"
  | SuperQuery query_context
  | SuperRemoveFromPool
  | CallbackCalled nat
  | LogUnexpected query_context js_value

text \<open>
  The connection object. \<open>connection\<close> is \<^verbatim>\<open>this.connection\<close> (\<open>None\<close> once deleted),
  \<open>ended\<close> and \<open>killed\<close> are the flags of the base class that \<^verbatim>\<open>createTransaction\<close>
  reads, \<open>isTransaction\<close> and \<open>transactionOpen\<close> the flags it sets. \<open>pending\<close> is the
  query the base class is waiting for and \<open>failed\<close> the queries it failed on an error
  event (both belong to the base class, see the inherited methods below); \<open>trace\<close> is
  the list of events so far.
\<close>

record conn_state =
  connection :: "pg_client option"
  ended :: bool
  killed :: bool
  isTransaction :: bool
  transactionOpen :: bool
  pending :: "query_context option"
  failed :: "(query_context \<times> error) list"
  trace :: "event list"

definition record_event :: "event \<Rightarrow> conn_state \<Rightarrow> conn_state" where
  "record_event e st = st\<lparr>trace := trace st @ [e]\<rparr>"

section \<open>executeQuery\<close>

text \<open>
  The shaping of a successful result that is an object (lines 179 to 190): by the
  \<^verbatim>\<open>command\<close> of the result, compared with \<^verbatim>\<open>===\<close>.
\<close>

definition shape_result :: "js_value \<Rightarrow> js_value" where
  "shape_result data =
     (if get_prop data ''command'' = JStr ''SELECT'' then get_prop data ''rows''
      else if get_prop data ''command'' = JStr ''INSERT'' then
        (if truthy (get_prop data ''rows'') \<and> truthy (get_prop (get_prop data ''rows'') ''length'')
         then get_prop (get_prop data ''rows'') ''0'' else JNull)
      else data)"

text \<open>
  \<^verbatim>\<open>executeQuery(queryContext, dontRetry)\<close>: the result is the final state of the
  promise it returns, with the connection afterwards. Calling \<^verbatim>\<open>query\<close> on a deleted
  handle throws inside the \<^verbatim>\<open>try\<close>, which rejects the promise.
\<close>

function executeQuery :: "conn_state \<Rightarrow> query_context \<Rightarrow> bool \<Rightarrow> js_value promise \<times> conn_state" where
  "executeQuery st ctx dontRetry =
     (case connection st of
        None \<Rightarrow> (Rejected TypeError, st)
      | Some c \<Rightarrow>
          (case script c of
             [] \<Rightarrow> (Unsettled, record_event (DriverQuery (sql ctx) (values' ctx)) st)
           | Reply err data # rest \<Rightarrow>
               (let st' = record_event (DriverQuery (sql ctx) (values' ctx))
                            (st\<lparr>connection := Some (c\<lparr>script := rest\<rparr>)\<rparr>)
                in case err of
                     Some e \<Rightarrow>
                       (if code e = Some ''23505'' then (Rejected (DuplicateKeyError e), st')
                        else (Rejected (DriverError e), st'))
                   | None \<Rightarrow>
                       (if ast ctx then (Resolved data, st')
                        else if type_object data then (Resolved (shape_result data), st')
                        else if \<not> dontRetry \<and> type_null data then executeQuery st' ctx True
                        else (Rejected UnexpectedReturnValue, record_event (LogUnexpected ctx data) st')))))"
  by pat_completeness auto
termination
  by (relation "measure (\<lambda>(st, ctx, dontRetry). if dontRetry then 0 else 1)") auto

text \<open>The number of queries the driver has been sent.\<close>

definition driver_queries :: "conn_state \<Rightarrow> nat" where
  "driver_queries st = length (filter (\<lambda>e. case e of DriverQuery s vs \<Rightarrow> True | _ \<Rightarrow> False) (trace st))"

section \<open>The inherited methods\<close>

text \<open>
  Modelled from the spec: the base class \<^verbatim>\<open>Connection\<close> (package
  \<^verbatim>\<open>related-db-connection\<close>), whose methods \<^verbatim>\<open>query\<close>, \<^verbatim>\<open>removeFromPool\<close>,
  \<^verbatim>\<open>emit\<close> and \<^verbatim>\<open>end\<close> the adapter calls, is not under src/. Of \<^verbatim>\<open>query\<close> the
  spec says: queries are accepted only while the connection is neither Ended nor
  Killed, and any attempt to query such a connection fails fast with a "connection
  ended" condition; otherwise the query goes to the query executor. The call is
  recorded in the trace, and a query the driver has not answered is the pending one.
\<close>

definition query :: "conn_state \<Rightarrow> query_context \<Rightarrow> js_value promise \<times> conn_state" where
  "query st ctx =
     (let st1 = record_event (SuperQuery ctx) st
      in if ended st1 \<or> killed st1 then (Rejected ConnectionEnded, st1)
         else (case executeQuery st1 ctx False of
                 (Unsettled, st2) \<Rightarrow> (Unsettled, st2\<lparr>pending := Some ctx\<rparr>)
               | (r, st2) \<Rightarrow> (r, st2)))"


text \<open>
  Modelled from the spec: \<^verbatim>\<open>emit('error', err)\<close> on the connection; the base class
  (not under src/) fails the currently pending query with that error.
\<close>

definition emit_error :: "error \<Rightarrow> conn_state \<Rightarrow> conn_state" where
  "emit_error e st =
     (case pending st of
        None \<Rightarrow> record_event (SuperEmitError e) st
      | Some q \<Rightarrow> record_event (SuperEmitError e) (st\<lparr>pending := None, failed := failed st @ [(q, e)]\<rparr>))"

text \<open>
  Modelled from the spec: \<^verbatim>\<open>end(err)\<close> of the base class (not under src/) called
  with an error makes the connection Killed.
\<close>

definition end_with_error :: "error \<Rightarrow> conn_state \<Rightarrow> conn_state" where
  "end_with_error e st = (record_event (SuperEnd (Some e)) st)\<lparr>killed := True\<rparr>"

section \<open>driverConnect and the error event of the handle\<close>

text \<open>The configuration \<^verbatim>\<open>driverConnect\<close> receives; an unset option is \<open>None\<close>.\<close>

record config =
  cfg_host :: string
  cfg_port :: "nat option"
  cfg_username :: "string option"
  cfg_password :: "string option"
  cfg_database :: "string option"

text \<open>
  \<^verbatim>\<open>driverConnect(config, callback)\<close>, lines 43 to 70. \<open>fresh\<close> is the handle that
  \<^verbatim>\<open>new pg.Client\<close> returns and \<open>answer\<close> the error (if any) the driver reports for
  \<^verbatim>\<open>connect\<close>. The result is the argument the callback is called with. A port of 0
  and an empty user name are falsy and replaced by the defaults.
\<close>

definition driverConnect ::
    "conn_state \<Rightarrow> config \<Rightarrow> pg_client \<Rightarrow> driver_error option \<Rightarrow> error option \<times> conn_state" where
  "driverConnect st cfg fresh answer =
     (let p = (case cfg_port cfg of None \<Rightarrow> 5432 | Some n \<Rightarrow> if n = 0 then 5432 else n);
          u = (case cfg_username cfg of None \<Rightarrow> ''postgres'' | Some n \<Rightarrow> if n = [] then ''postgres'' else n);
          st' = st\<lparr>connection := Some (fresh\<lparr>options :=
                   \<lparr>user = u, password = cfg_password cfg, host = cfg_host cfg, port = p,
                    database = cfg_database cfg\<rparr>\<rparr>)\<rparr>
      in (case answer of
            None \<Rightarrow> (None, st')
          | Some err \<Rightarrow>
              (if code err = Some ''28P01'' then (Some (InvalidCredentialsError err), st')
               else if code err = Some ''ECONNREFUSED'' then (Some (FailedToConnectError err), st')
               else if code err = Some ''ENETUNREACH'' then (Some (FailedToConnectError err), st')
               else if code err = Some ''ECONNRESET'' then (Some (FailedToConnectError err), st')
               else if code err = Some ''EHOSTUNREACH'' then (Some (FailedToConnectError err), st')
               else (Some (DriverError err), st'))))"

text \<open>
  The listener for the \<^verbatim>\<open>error\<close> event of the handle, lines 74 to 93: the error it
  passes on, and the handler itself. \<open>Inl\<close> is an exception thrown by the handler.
\<close>

definition error_event_translate :: "driver_error \<Rightarrow> error" where
  "error_event_translate err =
     (if code err = Some ''ECONNREFUSED'' then FailedToConnectError err
      else if code err = Some ''ENETUNREACH'' then FailedToConnectError err
      else if code err = Some ''ECONNRESET'' then FailedToConnectError err
      else if code err = Some ''EHOSTUNREACH'' then FailedToConnectError err
      else DriverError err)"

definition on_error :: "conn_state \<Rightarrow> driver_error \<Rightarrow> error + conn_state" where
  "on_error st err =
     (case connection st of
        None \<Rightarrow> Inl TypeError
      | Some c \<Rightarrow>
          Inr (end_with_error (error_event_translate err)
                (emit_error (error_event_translate err)
                  ((record_event DriverEnd st)\<lparr>connection := None\<rparr>))))"

section \<open>endConnection\<close>

text \<open>
  \<^verbatim>\<open>endConnection(callback)\<close>, lines 105 to 108: the callback (named by a number) is
  registered for one \<^verbatim>\<open>end\<close> event of the handle, then the handle is asked to end.
\<close>

definition endConnection :: "conn_state \<Rightarrow> nat \<Rightarrow> error + conn_state" where
  "endConnection st callback =
     (case connection st of
        None \<Rightarrow> Inl TypeError
      | Some c \<Rightarrow>
          Inr (record_event DriverEnd
                (record_event (DriverOnceEnd callback)
                  (st\<lparr>connection := Some (c\<lparr>end_listeners := end_listeners c @ [callback]\<rparr>)\<rparr>))))"

text \<open>
  The handle confirms that it has ended: it emits \<^verbatim>\<open>end\<close>, which calls each listener
  registered with \<^verbatim>\<open>once\<close> and removes it. Modelled from the spec: the listeners
  are the callbacks of \<^verbatim>\<open>end()\<close> in the base class (not under src/), and once the
  handle has confirmed, the connection is Ended.
\<close>

definition handle_ended :: "conn_state \<Rightarrow> conn_state" where
  "handle_ended st =
     (case connection st of
        None \<Rightarrow> st
      | Some c \<Rightarrow>
          fold (\<lambda>cb s. (record_event (CallbackCalled cb) s)\<lparr>ended := True\<rparr>) (end_listeners c)
            (st\<lparr>connection := Some (c\<lparr>end_listeners := []\<rparr>)\<rparr>))"

text \<open>
  Modelled from the spec: \<^verbatim>\<open>end()\<close> is a method of the base class (not under src/);
  the adapter supplies \<^verbatim>\<open>endConnection\<close> to it. The spec: it requests a graceful
  close and resolves only once the underlying handle confirms termination, and the
  connection is then Ended (see \<open>handle_ended\<close>); on a connection that has already been
  Killed there is nothing to close, and the call is a benign no-op, not an error.
\<close>

definition end_method :: "conn_state \<Rightarrow> nat \<Rightarrow> error + conn_state" where
  "end_method st callback =
     (if killed st then Inr st else endConnection (record_event (SuperEnd None) st) callback)"

definition end_resolved :: "conn_state \<Rightarrow> nat \<Rightarrow> bool" where
  "end_resolved st callback = (killed st \<or> CallbackCalled callback \<in> set (trace st))"

section \<open>Escaping\<close>

text \<open>
  The string a value becomes in \<^verbatim>\<open>input+''\<close>. For the numbers of the model (the
  integers of magnitude at most \<open>2 ^ 53 - 1\<close>) it is the decimal numeral; JavaScript
  prints numbers from \<open>10 ^ 21\<close> on in exponent form, which lie outside.
\<close>

function show_nat :: "nat \<Rightarrow> string" where
  "show_nat n = (if n < 10 then [''0123456789'' ! n] else show_nat (n div 10) @ [''0123456789'' ! (n mod 10)])"
  by pat_completeness auto
termination
  by (relation "measure id") auto

fun join :: "string list \<Rightarrow> string" where
  "join [] = []"
| "join [x] = x"
| "join (x # xs) = x @ '','' @ join xs"

fun to_string :: "js_value \<Rightarrow> string" where
  "to_string JUndefined = ''undefined''"
| "to_string JNull = ''null''"
| "to_string (JBool b) = (if b then ''true'' else ''false'')"
| "to_string (JNum n) = (if n < 0 then ''-'' @ show_nat (nat (- n)) else show_nat (nat n))"
| "to_string (JStr s) = s"
| "to_string (JArr xs) =
     join (map (\<lambda>x. if x = JUndefined \<or> x = JNull then [] else to_string x) xs)"
| "to_string (JObj kvs) = ''[object Object]''"

text \<open>\<^verbatim>\<open>escape(input)\<close>, lines 138 to 140.\<close>

definition escape :: "conn_state \<Rightarrow> js_value \<Rightarrow> error + string" where
  "escape st input =
     (case connection st of
        None \<Rightarrow> Inl TypeError
      | Some c \<Rightarrow> Inr (escapeLiteral c (to_string input)))"

text \<open>
  \<^verbatim>\<open>escapeId(input)\<close>, lines 151 to 155. \<open>Inl\<close> is the exception the call throws to
  its caller; the method returns no promise and takes no callback.
\<close>

definition escapeId :: "conn_state \<Rightarrow> js_value \<Rightarrow> error + string" where
  "escapeId st input =
     (if \<not> type_string input \<or> \<not> truthy (get_prop input ''length'') then Inl (CannotEscapeId input)
      else (case connection st of
              None \<Rightarrow> Inl TypeError
            | Some c \<Rightarrow> Inr (escapeIdentifier c (to_string input))))"

section \<open>lock\<close>

text \<open>The table \<^verbatim>\<open>lockModes\<close>, lines 30 to 33.\<close>

definition lockModes :: "(string \<times> string) list" where
  "lockModes = [(''LOCK_WRITE'', ''SHARE ROW EXCLUSIVE''), (''LOCK_EXCLUSIVE'', ''ACCESS EXCLUSIVE'')]"

text \<open>
  \<^verbatim>\<open>lockModes\<close> is an object literal, so \<^verbatim>\<open>this.lockModes[lockType]\<close> also finds the
  members every object inherits from \<^verbatim>\<open>Object.prototype\<close>. They are functions
  (\<^verbatim>\<open>__proto__\<close> is the prototype object), all truthy; listed with the text each
  becomes when concatenated to a string.
\<close>

definition object_prototype :: "(string \<times> string) list" where
  "object_prototype =
     [(''constructor'', ''function Object() { [native code] }''),
      (''__defineGetter__'', ''function __defineGetter__() { [native code] }''),
      (''__defineSetter__'', ''function __defineSetter__() { [native code] }''),
      (''hasOwnProperty'', ''function hasOwnProperty() { [native code] }''),
      (''__lookupGetter__'', ''function __lookupGetter__() { [native code] }''),
      (''__lookupSetter__'', ''function __lookupSetter__() { [native code] }''),
      (''isPrototypeOf'', ''function isPrototypeOf() { [native code] }''),
      (''propertyIsEnumerable'', ''function propertyIsEnumerable() { [native code] }''),
      (''toString'', ''function toString() { [native code] }''),
      (''valueOf'', ''function valueOf() { [native code] }''),
      (''__proto__'', ''[object Object]''),
      (''toLocaleString'', ''function toLocaleString() { [native code] }'')]"

text \<open>
  \<^verbatim>\<open>this.lockModes[lockType]\<close>: \<open>None\<close> when the value is \<^verbatim>\<open>undefined\<close>, else the text
  of the (truthy) value in a concatenation.
\<close>

definition lockModes_get :: "js_value \<Rightarrow> string option" where
  "lockModes_get lockType =
     (case map_of lockModes (to_string lockType) of
        Some phrase \<Rightarrow> Some phrase
      | None \<Rightarrow> map_of object_prototype (to_string lockType))"

text \<open>
  \<^verbatim>\<open>lock(schema, table, lockType, callback)\<close>, lines 118 to 125. \<open>Inl e\<close>: the call
  throws \<open>e\<close>. \<open>Inr p\<close>: \<open>p\<close> tells how the callback is called, \<open>Rejected e\<close> for
  \<^verbatim>\<open>callback(e)\<close>, \<open>Resolved d\<close> for \<^verbatim>\<open>callback(null, d)\<close>. The statement is passed
  to \<^verbatim>\<open>this.query\<close> as a string: a context with that SQL and nothing else.
\<close>

definition lock ::
    "conn_state \<Rightarrow> js_value \<Rightarrow> js_value \<Rightarrow> js_value \<Rightarrow> (error + js_value promise) \<times> conn_state" where
  "lock st schema table lockType =
     (case lockModes_get lockType of
        None \<Rightarrow> (Inr (Rejected (InvalidLockType (to_string lockType))), st)
      | Some phrase \<Rightarrow>
          (case (if truthy schema
                 then (case escapeId st schema of Inl e \<Rightarrow> Inl e | Inr t \<Rightarrow> Inr (t @ ''.''))
                 else Inr []) of
             Inl e \<Rightarrow> (Inl e, st)
           | Inr sch \<Rightarrow>
               (case escapeId st table of
                  Inl e \<Rightarrow> (Inl e, st)
                | Inr tbl \<Rightarrow>
                    (case query st \<lparr>sql = ''LOCK TABLE '' @ sch @ tbl @ '' IN '' @ phrase @ '' MODE;'',
                                     values' = [], ast = False, mode = None\<rparr> of
                       (r, st') \<Rightarrow> (Inr r, st')))))"

section \<open>createTransaction\<close>


section \<open>renderSQLQuery\<close>

text \<open>
  \<^verbatim>\<open>reg.exec(sql)\<close> for the global pattern \<^verbatim>\<open>/\$[0-9]+/gi\<close>: the first match that
  starts at \<^verbatim>\<open>lastIndex\<close> or later, as its start and text; the digits are matched
  greedily. No match when \<^verbatim>\<open>lastIndex\<close> is beyond the end of the string. After a
  match \<^verbatim>\<open>lastIndex\<close> is the end of the match.
\<close>

definition is_digit :: "char \<Rightarrow> bool" where
  "is_digit c = (c \<in> set ''0123456789'')"

fun scan_placeholder :: "string \<Rightarrow> nat \<Rightarrow> (nat \<times> string) option" where
  "scan_placeholder [] i = None"
| "scan_placeholder (c # cs) i =
     (if c = CHR ''$'' \<and> takeWhile is_digit cs \<noteq> [] then Some (i, c # takeWhile is_digit cs)
      else scan_placeholder cs (Suc i))"

definition regex_exec :: "string \<Rightarrow> nat \<Rightarrow> (nat \<times> string) option" where
  "regex_exec s lastIndex =
     (if length s < lastIndex then None else scan_placeholder (drop lastIndex s) lastIndex)"

text \<open>
  \<^verbatim>\<open>sql.replace(pattern, replacement)\<close> with a string pattern replaces the first
  occurrence of the pattern in the whole string, and expands in the replacement
  \<^verbatim>\<open>$$\<close> to a dollar sign, \<^verbatim>\<open>$&\<close> to the matched text, \<^verbatim>\<open>$`\<close> to the text before
  the match and \<^verbatim>\<open>$'\<close> to the text after it. A dollar sign before anything else
  stays (a string pattern has no groups).
\<close>

fun find_first :: "string \<Rightarrow> string \<Rightarrow> (string \<times> string) option" where
  "find_first pat [] = (if pat = [] then Some ([], []) else None)"
| "find_first pat (c # cs) =
     (if take (length pat) (c # cs) = pat then Some ([], drop (length pat) (c # cs))
      else (case find_first pat cs of None \<Rightarrow> None | Some (b, a) \<Rightarrow> Some (c # b, a)))"

fun substitution :: "string \<Rightarrow> string \<Rightarrow> string \<Rightarrow> string \<Rightarrow> string" where
  "substitution m b a (c # d # r) =
     (if c = CHR ''$'' \<and> d = CHR ''$'' then CHR ''$'' # substitution m b a r
      else if c = CHR ''$'' \<and> d = CHR ''&'' then m @ substitution m b a r
      else if c = CHR ''$'' \<and> d = CHR 0x60 then b @ substitution m b a r
      else if c = CHR ''$'' \<and> d = CHR 0x27 then a @ substitution m b a r
      else c # substitution m b a (d # r))"
| "substitution m b a r = r"

definition js_replace :: "string \<Rightarrow> string \<Rightarrow> string \<Rightarrow> string" where
  "js_replace s pat repl =
     (case find_first pat s of
        None \<Rightarrow> s
      | Some (b, a) \<Rightarrow> b @ substitution pat b a repl @ a)"

text \<open>
  The loop of \<^verbatim>\<open>renderSQLQuery\<close>, lines 250 to 259, on \<^verbatim>\<open>sql\<close>, \<^verbatim>\<open>reg.lastIndex\<close> and
  \<^verbatim>\<open>index\<close>. \<^verbatim>\<open>values[index]\<close> beyond the end is \<^verbatim>\<open>undefined\<close>. The new
  \<^verbatim>\<open>lastIndex\<close> is the end of the match plus the length of the escaped value minus
  the length of the match; the end of the match is at least the length of the match, so
  the subtraction on natural numbers is exact. The loop returns \<open>None\<close> when it does not
  end, \<open>Some (Inl e)\<close> when \<^verbatim>\<open>escape\<close> throws.
\<close>

partial_function (option) render_loop ::
    "conn_state \<Rightarrow> js_value list \<Rightarrow> string \<Rightarrow> nat \<Rightarrow> nat \<Rightarrow> (error + string) option" where
  "render_loop st vals s lastIndex index =
     (case regex_exec s lastIndex of
        None \<Rightarrow> Some (Inr s)
      | Some (start, m) \<Rightarrow>
          (case escape st (if index < length vals then vals ! index else JUndefined) of
             Inl e \<Rightarrow> Some (Inl e)
           | Inr lit \<Rightarrow>
               render_loop st vals
                 (if index < length vals then js_replace s m lit else s)
                 (start + length m + length lit - length m)
                 (Suc index)))"

text \<open>
  \<^verbatim>\<open>renderSQLQuery(sql, values)\<close>, lines 243 to 262; an argument that is
  \<^verbatim>\<open>undefined\<close> or \<^verbatim>\<open>null\<close> is \<open>None\<close> and is replaced by the empty string or list.
\<close>

definition renderSQLQuery ::
    "conn_state \<Rightarrow> string option \<Rightarrow> js_value list option \<Rightarrow> (error + string) option" where
  "renderSQLQuery st s vs =
     render_loop st (case vs of None \<Rightarrow> [] | Some l \<Rightarrow> l) (case s of None \<Rightarrow> [] | Some t \<Rightarrow> t) 0 0"

section \<open>A concrete driver handle\<close>

text \<open>
  The escaping primitives of the \<^verbatim>\<open>pg\<close> client, for evaluating the adapter on
  concrete inputs: a literal is wrapped in single quotes, with single quotes and
  backslashes doubled and \<^verbatim>\<open> E\<close> put in front when it holds a backslash; an
  identifier is wrapped in double quotes with double quotes doubled.
\<close>

definition pg_escapeLiteral :: "string \<Rightarrow> string" where
  "pg_escapeLiteral s =
     (if CHR 0x5C \<in> set s then '' E'' else []) @ [CHR 0x27]
       @ concat (map (\<lambda>c. if c = CHR 0x27 \<or> c = CHR 0x5C then [c, c] else [c]) s) @ [CHR 0x27]"

definition pg_escapeIdentifier :: "string \<Rightarrow> string" where
  "pg_escapeIdentifier s =
     [CHR 0x22] @ concat (map (\<lambda>c. if c = CHR 0x22 then [c, c] else [c]) s) @ [CHR 0x22]"

definition pg_handle :: "driver_reply list \<Rightarrow> pg_client" where
  "pg_handle replies =
     \<lparr>options = \<lparr>user = ''postgres'', password = None, host = ''localhost'', port = 5432, database = None\<rparr>,
      script = replies, escapeLiteral = pg_escapeLiteral, escapeIdentifier = pg_escapeIdentifier,
      end_listeners = []\<rparr>"

definition connected :: "driver_reply list \<Rightarrow> conn_state" where
  "connected replies =
     \<lparr>connection = Some (pg_handle replies), ended = False, killed = False, isTransaction = False,
      transactionOpen = False, pending = None, failed = [], trace = []\<rparr>"

text \<open>Results and contexts for concrete runs.\<close>

definition plain_query :: query_context where
  "plain_query = \<lparr>sql = ''select 1'', values' = [], ast = False, mode = None\<rparr>"

definition ast_query :: query_context where
  "ast_query = \<lparr>sql = ''select 1'', values' = [], ast = True, mode = None\<rparr>"

definition pg_result :: "string \<Rightarrow> js_value list \<Rightarrow> js_value" where
  "pg_result cmd rows = JObj [(''command'', JStr cmd), (''rows'', JArr rows)]"

definition unique_violation :: driver_error where
  "unique_violation = \<lparr>code = Some ''23505'', message = ''duplicate key value''\<rparr>"

definition connection_reset :: driver_error where
  "connection_reset = \<lparr>code = Some ''ECONNRESET'', message = ''read ECONNRESET''\<rparr>"

text \<open>
  A sequence of query attempts, one after the other, with their outcomes.
\<close>

fun query_all :: "conn_state \<Rightarrow> query_context list \<Rightarrow> js_value promise list \<times> conn_state" where
  "query_all st [] = ([], st)"
| "query_all st (q # qs) =
     (case query st q of (r, st') \<Rightarrow> (case query_all st' qs of (rs, st'') \<Rightarrow> (r # rs, st'')))"

text \<open>
  \<open>extends st st'\<close>: \<open>st'\<close> has the flags of \<open>st\<close>, and its trace continues the trace
  of \<open>st\<close>.
\<close>

definition extends :: "conn_state \<Rightarrow> conn_state \<Rightarrow> bool" where
  "extends st st' =
     (ended st' = ended st \<and> killed st' = killed st \<and> isTransaction st' = isTransaction st
      \<and> transactionOpen st' = transactionOpen st
      \<and> take (length (trace st)) (trace st') = trace st)"

text \<open>
  The rendering as the spec words it, on the escaped values: the statement is scanned
  from the left, the Nth placeholder met is replaced by the Nth value while values
  remain, and everything else, placeholders beyond the values included, stays.
\<close>

function render_spec :: "string list \<Rightarrow> string \<Rightarrow> string" where
  "render_spec [] s = s"
| "render_spec (l # ls) [] = []"
| "render_spec (l # ls) (c # cs) =
     (if c = CHR ''$'' \<and> takeWhile is_digit cs \<noteq> [] then l @ render_spec ls (dropWhile is_digit cs)
      else c # render_spec (l # ls) cs)"
  by pat_completeness auto
termination
  by (relation "measure (\<lambda>(ls, s). length s)") (auto simp: length_dropWhile_le less_Suc_eq_le)

text \<open>
  \<open>starts_none xs ys\<close>: no placeholder starts inside \<open>xs\<close> when \<open>ys\<close> follows it.
  \<open>plain_literal l\<close>: the escaped value \<open>l\<close> is not empty, holds no dollar sign and does
  not start with a digit.
\<close>

fun starts_none :: "string \<Rightarrow> string \<Rightarrow> bool" where
  "starts_none [] ys = True"
| "starts_none (c # cs) ys =
     (\<not> (c = CHR ''$'' \<and> takeWhile is_digit (cs @ ys) \<noteq> []) \<and> starts_none cs ys)"

definition plain_literal :: "string \<Rightarrow> bool" where
  "plain_literal l = (l \<noteq> [] \<and> CHR ''$'' \<notin> set l \<and> \<not> is_digit (hd l))"

text \<open>
  The four network codes that the connect callback and the error listener both test
  for.
\<close>

definition network_codes :: "string list" where
  "network_codes = [''ECONNREFUSED'', ''ENETUNREACH'', ''ECONNRESET'', ''EHOSTUNREACH'']"

definition is_network_error :: "driver_error \<Rightarrow> bool" where
  "is_network_error e = (case code e of None \<Rightarrow> False | Some k \<Rightarrow> k \<in> set network_codes)"

section \<open>Facts about executeQuery\<close>

declare executeQuery.simps [simp del]

lemma driver_queries_record_query [simp]:
  "driver_queries (record_event (DriverQuery s vs) st) = Suc (driver_queries st)"
  by (simp add: driver_queries_def record_event_def)

lemma driver_queries_record_log [simp]:
  "driver_queries (record_event (LogUnexpected q d) st) = driver_queries st"
  by (simp add: driver_queries_def record_event_def)

lemma driver_queries_connection_update [simp]:
  "driver_queries (st\<lparr>connection := x\<rparr>) = driver_queries st"
  by (simp add: driver_queries_def)

lemma executeQuery_no_handle:
  "connection st = None \<Longrightarrow> executeQuery st ctx dontRetry = (Rejected TypeError, st)"
  by (simp add: executeQuery.simps)

lemma executeQuery_final_attempt:
  assumes "connection st = Some c"
  shows "driver_queries (snd (executeQuery st ctx True)) = Suc (driver_queries st)"
  using assms
  by (simp add: executeQuery.simps Let_def split: list.splits driver_reply.splits option.splits)

lemma executeQuery_final_unexpected:
  assumes "connection st = Some c" and "script c = Reply None data # rest" and "\<not> ast ctx"
    and "\<not> type_object data"
  shows "fst (executeQuery st ctx True) = Rejected UnexpectedReturnValue"
  using assms by (simp add: executeQuery.simps Let_def)

lemma executeQuery_object:
  assumes "connection st = Some c" and "script c = Reply None data # rest" and "\<not> ast ctx"
    and "type_object data"
  shows "fst (executeQuery st ctx dontRetry) = Resolved (shape_result data)"
  using assms by (simp add: executeQuery.simps Let_def)

lemma shape_result_well_formed:
  assumes "map_of kvs ''command'' = Some (JStr cmd)" and "map_of kvs ''rows'' = Some (JArr rows)"
  shows "shape_result (JObj kvs) =
           (if cmd = ''SELECT'' then JArr rows
            else if cmd = ''INSERT'' then (case rows of [] \<Rightarrow> JNull | r # _ \<Rightarrow> r)
            else JObj kvs)"
  using assms by (simp add: shape_result_def split: list.splits)

text \<open>
  No call of \<^verbatim>\<open>executeQuery\<close> sends the driver more than two queries: the retry is
  the only recursive call, and it passes \<^verbatim>\<open>dontRetry = true\<close>.
\<close>

lemma executeQuery_at_most_two:
  "driver_queries (snd (executeQuery st ctx dontRetry)) \<le> driver_queries st + 2"
proof (cases "connection st")
  case None
  then show ?thesis by (simp add: executeQuery_no_handle)
next
  case (Some c)
  show ?thesis
  proof (cases dontRetry)
    case True
    then show ?thesis using executeQuery_final_attempt [OF Some, of ctx] by simp
  next
    case False
    show ?thesis
    proof (cases "script c")
      case Nil
      then show ?thesis using Some by (simp add: executeQuery.simps)
    next
      case (Cons r rest)
      obtain err data where r: "r = Reply err data" by (cases r)
      let ?st1 = "record_event (DriverQuery (sql ctx) (values' ctx)) (st\<lparr>connection := Some (c\<lparr>script := rest\<rparr>)\<rparr>)"
      have conn1: "connection ?st1 = Some (c\<lparr>script := rest\<rparr>)"
        by (simp add: record_event_def)
      show ?thesis
        using Some Cons r False executeQuery_final_attempt [OF conn1, of ctx]
        by (subst executeQuery.simps) (simp add: Let_def split: option.splits)
    qed
  qed
qed

text \<open>
  C6. A successful query that is not of AST origin and whose result is an object with
  a command and an array of rows resolves, for SELECT, to the rows in their order
  (an array, empty when there are none); for INSERT, to the first row, or to
  \<^verbatim>\<open>null\<close> when no row was returned (the promise is resolved, not rejected); for
  any other command, to the result object itself.
\<close>

theorem executeQuery_shapes_result:
  assumes "connection st = Some c" and "script c = Reply None data # rest" and "\<not> ast ctx"
    and "data = JObj kvs"
    and "map_of kvs ''command'' = Some (JStr cmd)" and "map_of kvs ''rows'' = Some (JArr rows)"
  shows "fst (executeQuery st ctx dontRetry) =
           Resolved (if cmd = ''SELECT'' then JArr rows
                     else if cmd = ''INSERT'' then (case rows of [] \<Rightarrow> JNull | r # _ \<Rightarrow> r)
                     else data)"
proof -
  have "fst (executeQuery st ctx dontRetry) = Resolved (shape_result data)"
    using assms(1-4) by (simp add: executeQuery.simps Let_def)
  then show ?thesis
    using shape_result_well_formed [OF assms(5,6)] assms(4) by simp
qed

theorem executeQuery_shapes_result_witness:
  "fst (executeQuery (connected [Reply None (pg_result ''SELECT'' [])]) plain_query False)
     = Resolved (JArr [])
   \<and> fst (executeQuery (connected [Reply None (pg_result ''INSERT'' [JStr ''row1'', JStr ''row2''])])
            plain_query False)
     = Resolved (JStr ''row1'')
   \<and> fst (executeQuery (connected [Reply None (pg_result ''INSERT'' [])]) plain_query False)
     = Resolved JNull
   \<and> fst (executeQuery (connected [Reply None (pg_result ''DELETE'' [])]) plain_query False)
     = Resolved (pg_result ''DELETE'' [])"
  using
    executeQuery_shapes_result [of "connected [Reply None (pg_result ''SELECT'' [])]"
      "pg_handle [Reply None (pg_result ''SELECT'' [])]" "pg_result ''SELECT'' []" "[]" plain_query
      "[(''command'', JStr ''SELECT''), (''rows'', JArr [])]" "''SELECT''" "[]" False]
    executeQuery_shapes_result [of "connected [Reply None (pg_result ''INSERT'' [JStr ''row1'', JStr ''row2''])]"
      "pg_handle [Reply None (pg_result ''INSERT'' [JStr ''row1'', JStr ''row2''])]"
      "pg_result ''INSERT'' [JStr ''row1'', JStr ''row2'']" "[]" plain_query
      "[(''command'', JStr ''INSERT''), (''rows'', JArr [JStr ''row1'', JStr ''row2''])]" "''INSERT''"
      "[JStr ''row1'', JStr ''row2'']" False]
    executeQuery_shapes_result [of "connected [Reply None (pg_result ''INSERT'' [])]"
      "pg_handle [Reply None (pg_result ''INSERT'' [])]" "pg_result ''INSERT'' []" "[]" plain_query
      "[(''command'', JStr ''INSERT''), (''rows'', JArr [])]" "''INSERT''" "[]" False]
    executeQuery_shapes_result [of "connected [Reply None (pg_result ''DELETE'' [])]"
      "pg_handle [Reply None (pg_result ''DELETE'' [])]" "pg_result ''DELETE'' []" "[]" plain_query
      "[(''command'', JStr ''DELETE''), (''rows'', JArr [])]" "''DELETE''" "[]" False]
  by (simp add: connected_def pg_handle_def pg_result_def plain_query_def)

text \<open>
  C10. When the context is of AST origin, a successful answer of the driver is resolved
  as it came, whatever it is (\<^verbatim>\<open>null\<close> included), and the driver has been sent
  exactly one query: there is no retry and no rejection.
\<close>

theorem ast_query_resolves_raw:
  assumes "ast ctx" and "connection st = Some c" and "script c = Reply None data # rest"
  shows "fst (executeQuery st ctx dontRetry) = Resolved data
       \<and> driver_queries (snd (executeQuery st ctx dontRetry)) = driver_queries st + 1
       \<and> (\<forall>st' d. fst (executeQuery st' ctx d) \<noteq> Rejected UnexpectedReturnValue
                  \<and> driver_queries (snd (executeQuery st' ctx d)) \<le> driver_queries st' + 1)"
proof -
  have one: "fst (executeQuery st ctx dontRetry) = Resolved data
       \<and> driver_queries (snd (executeQuery st ctx dontRetry)) = driver_queries st + 1"
    using assms by (simp add: executeQuery.simps Let_def)
  have never: "fst (executeQuery st' ctx d) \<noteq> Rejected UnexpectedReturnValue
       \<and> driver_queries (snd (executeQuery st' ctx d)) \<le> driver_queries st' + 1" for st' d
    using assms(1)
    by (simp add: executeQuery.simps Let_def split: option.splits list.splits driver_reply.splits)
  show ?thesis
    using one never by blast
qed

theorem ast_query_resolves_raw_witness:
  "ast ast_query
   \<and> fst (executeQuery (connected [Reply None JNull, Reply None JNull]) ast_query False) = Resolved JNull
   \<and> driver_queries (snd (executeQuery (connected [Reply None JNull, Reply None JNull]) ast_query False)) = 1"
  using ast_query_resolves_raw [of ast_query "connected [Reply None JNull, Reply None JNull]"
      "pg_handle [Reply None JNull, Reply None JNull]" JNull "[Reply None JNull]" False]
  by (simp add: connected_def pg_handle_def ast_query_def driver_queries_def)

lemma connection_connected: "connection (connected replies) = Some (pg_handle replies)"
  by (simp add: connected_def)

lemma script_pg_handle: "script (pg_handle replies) = replies"
  by (simp add: pg_handle_def)

lemma driver_queries_connected: "driver_queries (connected replies) = 0"
  by (simp add: connected_def driver_queries_def)

text \<open>
  C2, as amended. When the context is not of AST origin and the first attempt (not
  itself a retry) succeeds with \<^verbatim>\<open>null\<close>, \<^verbatim>\<open>executeQuery\<close> is what its call with
  \<^verbatim>\<open>dontRetry = true\<close> on the connection after the first answer is; the driver is
  sent exactly two queries; when the second answer is again not an object the promise is
  rejected with the unexpected-return-value error, and when it is an object the shaped
  result is resolved. A first answer that is neither an object nor \<^verbatim>\<open>null\<close> (such as
  \<^verbatim>\<open>undefined\<close>) is rejected at once, after one query. No call sends more than two
  queries.
\<close>

theorem null_result_retry:
  assumes "\<not> ast ctx" and "connection st = Some c" and "script c = Reply None JNull # rest"
  shows "executeQuery st ctx False =
           executeQuery (record_event (DriverQuery (sql ctx) (values' ctx))
                          (st\<lparr>connection := Some (c\<lparr>script := rest\<rparr>)\<rparr>)) ctx True
       \<and> driver_queries (snd (executeQuery st ctx False)) = driver_queries st + 2
       \<and> (\<forall>d2 rest2. rest = Reply None d2 # rest2 \<and> \<not> type_object d2 \<longrightarrow>
            fst (executeQuery st ctx False) = Rejected UnexpectedReturnValue)
       \<and> (\<forall>d2 rest2. rest = Reply None d2 # rest2 \<and> type_object d2 \<longrightarrow>
            fst (executeQuery st ctx False) = Resolved (shape_result d2))
       \<and> (\<forall>s1 c1 d1 rest1.
            connection s1 = Some c1 \<and> script c1 = Reply None d1 # rest1
            \<and> \<not> type_object d1 \<and> \<not> type_null d1 \<longrightarrow>
            fst (executeQuery s1 ctx False) = Rejected UnexpectedReturnValue
            \<and> driver_queries (snd (executeQuery s1 ctx False)) = driver_queries s1 + 1)
       \<and> (\<forall>s1 ctx1 d. driver_queries (snd (executeQuery s1 ctx1 d)) \<le> driver_queries s1 + 2)"
proof -
  let ?st1 = "record_event (DriverQuery (sql ctx) (values' ctx)) (st\<lparr>connection := Some (c\<lparr>script := rest\<rparr>)\<rparr>)"
  have step: "executeQuery st ctx False = executeQuery ?st1 ctx True"
    using assms by (subst executeQuery.simps) (simp add: Let_def)
  have conn1: "connection ?st1 = Some (c\<lparr>script := rest\<rparr>)"
    by (simp add: record_event_def)
  have count: "driver_queries (snd (executeQuery st ctx False)) = driver_queries st + 2"
    using executeQuery_final_attempt [OF conn1, of ctx] by (simp add: step)
  have bad: "fst (executeQuery st ctx False) = Rejected UnexpectedReturnValue"
    if "rest = Reply None d2 # rest2" and "\<not> type_object d2" for d2 rest2
    using that assms(1) executeQuery_final_unexpected [OF conn1, of d2 rest2 ctx] by (simp add: step)
  have good: "fst (executeQuery st ctx False) = Resolved (shape_result d2)"
    if "rest = Reply None d2 # rest2" and "type_object d2" for d2 rest2
    using that assms(1) executeQuery_object [OF conn1, of d2 rest2 ctx True] by (simp add: step)
  have other: "fst (executeQuery s1 ctx False) = Rejected UnexpectedReturnValue
            \<and> driver_queries (snd (executeQuery s1 ctx False)) = driver_queries s1 + 1"
    if "connection s1 = Some c1" and "script c1 = Reply None d1 # rest1"
      and "\<not> type_object d1" and "\<not> type_null d1" for s1 c1 d1 rest1
    using that assms(1) by (simp add: executeQuery.simps Let_def)
  show ?thesis
    using step count bad good other executeQuery_at_most_two by blast
qed

theorem null_result_retry_witness:
  "\<not> ast plain_query
   \<and> fst (executeQuery (connected [Reply None JNull, Reply None JNull]) plain_query False)
       = Rejected UnexpectedReturnValue
   \<and> driver_queries (snd (executeQuery (connected [Reply None JNull, Reply None JNull]) plain_query False)) = 2
   \<and> fst (executeQuery (connected [Reply None JNull, Reply None (pg_result ''SELECT'' [JStr ''row1''])])
            plain_query False)
       = Resolved (JArr [JStr ''row1''])"
proof -
  have plain: "\<not> ast plain_query"
    by (simp add: plain_query_def)
  have rows: "shape_result (pg_result ''SELECT'' [JStr ''row1'']) = JArr [JStr ''row1'']"
    by (simp add: shape_result_def pg_result_def)
  have obj: "type_object (pg_result ''SELECT'' [JStr ''row1''])"
    by (simp add: pg_result_def)
  show ?thesis
    using null_result_retry [OF plain connection_connected script_pg_handle,
        where rest = "[Reply None JNull]", THEN conjunct2]
      null_result_retry [OF plain connection_connected script_pg_handle,
        where rest = "[Reply None (pg_result ''SELECT'' [JStr ''row1''])]", THEN conjunct2]
    by (simp add: plain rows obj driver_queries_connected)
qed

text \<open>
  C2 as stated fails twice. An AST-origin query whose first attempt yields \<^verbatim>\<open>null\<close>
  is resolved with \<^verbatim>\<open>null\<close> after one query, without a retry. A first attempt that
  yields \<^verbatim>\<open>undefined\<close> (an absent result) is rejected after one query, although the
  second answer would have been a well-formed SELECT result.
\<close>

theorem null_result_retry_counterexample:
  "fst (executeQuery (connected [Reply None JNull, Reply None JNull]) ast_query False) = Resolved JNull
   \<and> driver_queries (snd (executeQuery (connected [Reply None JNull, Reply None JNull]) ast_query False)) = 1
   \<and> fst (executeQuery (connected [Reply None JUndefined, Reply None (pg_result ''SELECT'' [])]) plain_query False)
       = Rejected UnexpectedReturnValue
   \<and> driver_queries (snd (executeQuery (connected [Reply None JUndefined, Reply None (pg_result ''SELECT'' [])])
        plain_query False)) = 1"
  by (simp add: executeQuery.simps connected_def pg_handle_def ast_query_def plain_query_def
      driver_queries_def record_event_def)

section \<open>Translation of driver errors\<close>

lemma is_network_error_iff:
  "is_network_error e \<longleftrightarrow>
     code e = Some ''ECONNREFUSED'' \<or> code e = Some ''ENETUNREACH''
     \<or> code e = Some ''ECONNRESET'' \<or> code e = Some ''EHOSTUNREACH''"
  by (auto simp: is_network_error_def network_codes_def split: option.splits)

lemma on_error_delivers:
  "connection st = Some c \<Longrightarrow>
     \<exists>st'. on_error st e = Inr st'
       \<and> trace st' = trace st @ [DriverEnd, SuperEmitError (error_event_translate e),
                                  SuperEnd (Some (error_event_translate e))]"
  by (simp add: on_error_def end_with_error_def emit_error_def record_event_def split: option.splits)

text \<open>
  C1, as amended. A driver error with the unique-violation code 23505 that the driver
  reports to the callback of a query is handed to the caller as a DuplicateKey error,
  retry or not; the callback of \<^verbatim>\<open>driverConnect\<close> and the listener for the error
  event of the handle pass such an error on as it came. The three paths have tables of
  their own: a query translates 23505 and nothing else; the connect callback translates
  28P01 to InvalidCredentials and the four network codes to FailedToConnect and
  nothing else; the error listener translates the four network codes and nothing else,
  and hands the same error to \<^verbatim>\<open>emit\<close> and to \<^verbatim>\<open>end\<close>.
\<close>

theorem unique_violation_by_path:
  assumes "code err = Some ''23505''"
  shows "(\<forall>st c data rest ctx dontRetry.
            connection st = Some c \<and> script c = Reply (Some err) data # rest \<longrightarrow>
            fst (executeQuery st ctx dontRetry) = Rejected (DuplicateKeyError err))
       \<and> (\<forall>st cfg fresh. fst (driverConnect st cfg fresh (Some err)) = Some (DriverError err))
       \<and> (\<forall>st c. connection st = Some c \<longrightarrow>
            (\<exists>st'. on_error st err = Inr st'
               \<and> trace st' = trace st @ [DriverEnd, SuperEmitError (DriverError err),
                                          SuperEnd (Some (DriverError err))]))
       \<and> (\<forall>e st c data rest ctx dontRetry.
            connection st = Some c \<and> script c = Reply (Some e) data # rest \<longrightarrow>
            fst (executeQuery st ctx dontRetry)
              = Rejected (if code e = Some ''23505'' then DuplicateKeyError e else DriverError e))
       \<and> (\<forall>e st cfg fresh.
            fst (driverConnect st cfg fresh (Some e))
              = Some (if code e = Some ''28P01'' then InvalidCredentialsError e
                      else if is_network_error e then FailedToConnectError e
                      else DriverError e))
       \<and> (\<forall>e st c. connection st = Some c \<longrightarrow>
            (\<exists>st'. on_error st e = Inr st'
               \<and> trace st' = trace st @
                    [DriverEnd,
                     SuperEmitError (if is_network_error e then FailedToConnectError e else DriverError e),
                     SuperEnd (Some (if is_network_error e then FailedToConnectError e else DriverError e))]))"
proof -
  have q: "fst (executeQuery st ctx dontRetry)
             = Rejected (if code e = Some ''23505'' then DuplicateKeyError e else DriverError e)"
    if "connection st = Some c" and "script c = Reply (Some e) data # rest"
    for e st c data rest ctx dontRetry
    using that by (simp add: executeQuery.simps Let_def)
  have cn: "fst (driverConnect st cfg fresh (Some e))
              = Some (if code e = Some ''28P01'' then InvalidCredentialsError e
                      else if is_network_error e then FailedToConnectError e
                      else DriverError e)" for e st cfg fresh
    by (simp add: driverConnect_def Let_def is_network_error_iff)
  have tr: "error_event_translate e = (if is_network_error e then FailedToConnectError e else DriverError e)" for e
    by (simp add: error_event_translate_def is_network_error_iff)
  have ev: "\<exists>st'. on_error st e = Inr st'
               \<and> trace st' = trace st @
                    [DriverEnd,
                     SuperEmitError (if is_network_error e then FailedToConnectError e else DriverError e),
                     SuperEnd (Some (if is_network_error e then FailedToConnectError e else DriverError e))]"
    if "connection st = Some c" for e st c
    using on_error_delivers [OF that, of e] by (simp add: tr)
  have net: "\<not> is_network_error err" and pw: "code err \<noteq> Some ''28P01''"
    using assms by (simp_all add: is_network_error_iff)
  have q1: "fst (executeQuery st ctx dontRetry) = Rejected (DuplicateKeyError err)"
    if "connection st = Some c" and "script c = Reply (Some err) data # rest"
    for st c data rest ctx dontRetry
    using q [OF that] assms by simp
  have cn1: "fst (driverConnect st cfg fresh (Some err)) = Some (DriverError err)" for st cfg fresh
    using cn [of st cfg fresh err] net pw by simp
  have ev1: "\<exists>st'. on_error st err = Inr st'
               \<and> trace st' = trace st @ [DriverEnd, SuperEmitError (DriverError err),
                                          SuperEnd (Some (DriverError err))]"
    if "connection st = Some c" for st c
    using ev [OF that, of err] net by simp
  have p1: "\<forall>st c data rest ctx dontRetry.
            connection st = Some c \<and> script c = Reply (Some err) data # rest \<longrightarrow>
            fst (executeQuery st ctx dontRetry) = Rejected (DuplicateKeyError err)"
    using q1 by blast
  have p2: "\<forall>st cfg fresh. fst (driverConnect st cfg fresh (Some err)) = Some (DriverError err)"
    using cn1 by blast
  have p3: "\<forall>st c. connection st = Some c \<longrightarrow>
            (\<exists>st'. on_error st err = Inr st'
               \<and> trace st' = trace st @ [DriverEnd, SuperEmitError (DriverError err),
                                          SuperEnd (Some (DriverError err))])"
    using ev1 by blast
  have p4: "\<forall>e st c data rest ctx dontRetry.
            connection st = Some c \<and> script c = Reply (Some e) data # rest \<longrightarrow>
            fst (executeQuery st ctx dontRetry)
              = Rejected (if code e = Some ''23505'' then DuplicateKeyError e else DriverError e)"
    using q by blast
  have p5: "\<forall>e st cfg fresh.
            fst (driverConnect st cfg fresh (Some e))
              = Some (if code e = Some ''28P01'' then InvalidCredentialsError e
                      else if is_network_error e then FailedToConnectError e
                      else DriverError e)"
    using cn by blast
  have p6: "\<forall>e st c. connection st = Some c \<longrightarrow>
            (\<exists>st'. on_error st e = Inr st'
               \<and> trace st' = trace st @
                    [DriverEnd,
                     SuperEmitError (if is_network_error e then FailedToConnectError e else DriverError e),
                     SuperEnd (Some (if is_network_error e then FailedToConnectError e else DriverError e))])"
    using ev by blast
  show ?thesis
    using p1 p2 p3 p4 p5 p6 by (intro conjI)
qed

theorem unique_violation_by_path_witness:
  "code unique_violation = Some ''23505''
   \<and> fst (executeQuery (connected [Reply (Some unique_violation) JUndefined]) plain_query False)
       = Rejected (DuplicateKeyError unique_violation)
   \<and> fst (driverConnect (connected []) \<lparr>cfg_host = ''db'', cfg_port = None, cfg_username = None,
          cfg_password = None, cfg_database = None\<rparr> (pg_handle []) (Some connection_reset))
       = Some (FailedToConnectError connection_reset)
   \<and> fst (driverConnect (connected []) \<lparr>cfg_host = ''db'', cfg_port = None, cfg_username = None,
          cfg_password = None, cfg_database = None\<rparr> (pg_handle []) (Some unique_violation))
       = Some (DriverError unique_violation)"
proof -
  have c: "code unique_violation = Some ''23505''"
    by (simp add: unique_violation_def)
  have n: "is_network_error connection_reset" "code connection_reset \<noteq> Some ''28P01''"
    by (simp_all add: is_network_error_iff connection_reset_def)
  note t = unique_violation_by_path [OF c]
  have a: "fst (executeQuery (connected [Reply (Some unique_violation) JUndefined]) plain_query False)
       = Rejected (DuplicateKeyError unique_violation)"
    using t [THEN conjunct1, rule_format,
        of "connected [Reply (Some unique_violation) JUndefined]"
           "pg_handle [Reply (Some unique_violation) JUndefined]" JUndefined "[]" plain_query False]
    by (simp add: connection_connected script_pg_handle)
  have b: "fst (driverConnect (connected []) \<lparr>cfg_host = ''db'', cfg_port = None, cfg_username = None,
          cfg_password = None, cfg_database = None\<rparr> (pg_handle []) (Some connection_reset))
       = Some (FailedToConnectError connection_reset)"
    using t [THEN conjunct2, THEN conjunct2, THEN conjunct2, THEN conjunct2, THEN conjunct1,
        rule_format, of "connected []" _ "pg_handle []" connection_reset] n
    by simp
  have d: "fst (driverConnect (connected []) \<lparr>cfg_host = ''db'', cfg_port = None, cfg_username = None,
          cfg_password = None, cfg_database = None\<rparr> (pg_handle []) (Some unique_violation))
       = Some (DriverError unique_violation)"
    using t [THEN conjunct2, THEN conjunct1, rule_format] .
  show ?thesis
    using c a b d by simp
qed

text \<open>
  C1 as stated fails on the connect path and on the asynchronous error channel: a
  driver error with code 23505 reaches the callback of \<^verbatim>\<open>driverConnect\<close>, and the
  base class through the error listener, as the driver's own error, not as a
  DuplicateKey error.
\<close>

theorem unique_violation_counterexample:
  "fst (driverConnect (connected []) \<lparr>cfg_host = ''db'', cfg_port = None, cfg_username = None,
          cfg_password = None, cfg_database = None\<rparr> (pg_handle []) (Some unique_violation))
     = Some (DriverError unique_violation)
   \<and> DriverError unique_violation \<noteq> DuplicateKeyError unique_violation
   \<and> (case on_error (connected []) unique_violation of
        Inl e \<Rightarrow> False
      | Inr st \<Rightarrow> trace st = [DriverEnd, SuperEmitError (DriverError unique_violation),
                              SuperEnd (Some (DriverError unique_violation))])"
  by (simp add: driverConnect_def unique_violation_def on_error_def error_event_translate_def
      connected_def pg_handle_def record_event_def emit_error_def end_with_error_def)

section \<open>Frame of a query\<close>

lemma extends_refl: "extends st st"
  by (simp add: extends_def)

lemma take_prefix_trans:
  assumes "take (length xs) ys = xs" and "take (length ys) zs = ys"
  shows "take (length xs) zs = xs"
proof -
  have "length xs \<le> length ys"
    using arg_cong [OF assms(1), of length] by simp
  then have "take (length xs) zs = take (length xs) (take (length ys) zs)"
    by (simp add: min_def)
  then show ?thesis
    using assms by simp
qed

lemma extends_trans: "extends a b \<Longrightarrow> extends b c \<Longrightarrow> extends a c"
  unfolding extends_def using take_prefix_trans by auto

lemma extends_record_event: "extends st (record_event e st)"
  by (simp add: extends_def record_event_def)

lemma extends_pending_update: "extends st (st\<lparr>pending := x\<rparr>)"
  by (simp add: extends_def)

lemma executeQuery_extends_final: "extends st (snd (executeQuery st ctx True))"
  by (simp add: executeQuery.simps Let_def extends_def record_event_def
      split: option.splits list.splits driver_reply.splits)

lemma executeQuery_extends: "extends st (snd (executeQuery st ctx dontRetry))"
proof (cases dontRetry)
  case True
  then show ?thesis by (simp add: executeQuery_extends_final)
next
  case False
  show ?thesis
  proof (cases "connection st")
    case None
    then show ?thesis by (simp add: executeQuery_no_handle extends_refl)
  next
    case (Some c)
    show ?thesis
    proof (cases "script c")
      case Nil
      then show ?thesis using Some by (simp add: executeQuery.simps extends_record_event)
    next
      case (Cons r rest)
      obtain err data where r: "r = Reply err data" by (cases r)
      let ?st1 = "record_event (DriverQuery (sql ctx) (values' ctx)) (st\<lparr>connection := Some (c\<lparr>script := rest\<rparr>)\<rparr>)"
      have one: "extends st ?st1"
        by (simp add: extends_def record_event_def)
      have two: "extends st (record_event (LogUnexpected ctx data) ?st1)"
        by (simp add: extends_def record_event_def)
      have three: "extends st (snd (executeQuery ?st1 ctx True))"
        using extends_trans [OF one executeQuery_extends_final] .
      show ?thesis
        using Some Cons r False one two three
        by (subst executeQuery.simps) (simp add: Let_def split: option.splits)
    qed
  qed
qed

lemma query_extends: "extends (record_event (SuperQuery ctx) st) (snd (query st ctx))"
proof -
  let ?st1 = "record_event (SuperQuery ctx) st"
  show ?thesis
  proof (cases "ended ?st1 \<or> killed ?st1")
    case True
    then show ?thesis by (simp add: query_def Let_def extends_refl)
  next
    case False
    obtain r st2 where ex: "executeQuery ?st1 ctx False = (r, st2)"
      by (cases "executeQuery ?st1 ctx False")
    have "extends ?st1 st2"
      using executeQuery_extends [of ?st1 ctx False] ex by simp
    moreover have "extends ?st1 (st2\<lparr>pending := Some ctx\<rparr>)"
      using extends_trans [OF \<open>extends ?st1 st2\<close> extends_pending_update] .
    ultimately show ?thesis
      using False ex by (simp add: query_def Let_def split: promise.splits)
  qed
qed

lemma query_killed:
  "killed st \<Longrightarrow> query st ctx = (Rejected ConnectionEnded, record_event (SuperQuery ctx) st)"
  by (simp add: query_def Let_def record_event_def)

lemma query_all_killed:
  "killed st \<Longrightarrow>
     (\<forall>r \<in> set (fst (query_all st qs)). r = Rejected ConnectionEnded)
     \<and> driver_queries (snd (query_all st qs)) = driver_queries st
     \<and> killed (snd (query_all st qs))"
proof (induction qs arbitrary: st)
  case Nil
  then show ?case by simp
next
  case (Cons q qs)
  let ?st1 = "record_event (SuperQuery q) st"
  have k: "killed ?st1"
    using Cons.prems by (simp add: record_event_def)
  have d: "driver_queries ?st1 = driver_queries st"
    by (simp add: driver_queries_def record_event_def)
  show ?case
    using Cons.IH [OF k] d Cons.prems
    by (simp add: query_killed case_prod_beta)
qed

section \<open>createTransaction\<close>



section \<open>The error event of the handle\<close>

text \<open>
  C3. When the handle emits an error while a query is pending, the listener closes and
  forgets the handle, the pending query fails with the translated error, and the
  connection is killed, without a query being sent. From then on every query attempt,
  however many follow, is rejected with the "connection ended" condition and the driver
  is sent nothing; a direct call of \<^verbatim>\<open>executeQuery\<close> is rejected too, the handle being
  gone.
\<close>

theorem error_event_kills_connection:
  assumes "connection st = Some c" and "pending st = Some q"
  shows "\<exists>st'. on_error st err = Inr st'
           \<and> failed st' = failed st @ [(q, error_event_translate err)]
           \<and> pending st' = None
           \<and> killed st'
           \<and> connection st' = None
           \<and> driver_queries st' = driver_queries st
           \<and> (\<forall>qs. (\<forall>r \<in> set (fst (query_all st' qs)). r = Rejected ConnectionEnded)
                    \<and> driver_queries (snd (query_all st' qs)) = driver_queries st')
           \<and> (\<forall>ctx dontRetry. executeQuery st' ctx dontRetry = (Rejected TypeError, st'))"
proof -
  let ?e = "error_event_translate err"
  let ?st' = "end_with_error ?e (emit_error ?e ((record_event DriverEnd st)\<lparr>connection := None\<rparr>))"
  have run: "on_error st err = Inr ?st'"
    using assms(1) by (simp add: on_error_def)
  have f: "failed ?st' = failed st @ [(q, ?e)]" and p: "pending ?st' = None"
    and k: "killed ?st'" and c: "connection ?st' = None"
    using assms(2) by (simp_all add: end_with_error_def emit_error_def record_event_def)
  have d: "driver_queries ?st' = driver_queries st"
    using assms(2) by (simp add: end_with_error_def emit_error_def record_event_def driver_queries_def)
  have later: "(\<forall>r \<in> set (fst (query_all ?st' qs)). r = Rejected ConnectionEnded)
                \<and> driver_queries (snd (query_all ?st' qs)) = driver_queries ?st'" for qs
    using query_all_killed [OF k, of qs] by simp
  have direct: "executeQuery ?st' ctx dontRetry = (Rejected TypeError, ?st')" for ctx dontRetry
    using executeQuery_no_handle [OF c] .
  show ?thesis
    using run f p k c d later direct by blast
qed

lemma waiting_state:
  "snd (query (connected []) plain_query)
     = (connected [])\<lparr>pending := Some plain_query,
          trace := [SuperQuery plain_query, DriverQuery ''select 1'' []]\<rparr>"
  by (simp add: query_def Let_def executeQuery.simps connected_def pg_handle_def record_event_def
      plain_query_def)

theorem error_event_kills_connection_witness:
  "pending (snd (query (connected []) plain_query)) = Some plain_query
   \<and> (case on_error (snd (query (connected []) plain_query)) connection_reset of
        Inl e \<Rightarrow> False
      | Inr st' \<Rightarrow>
          failed st' = [(plain_query, FailedToConnectError connection_reset)]
          \<and> killed st'
          \<and> fst (query_all st' [plain_query, ast_query]) = [Rejected ConnectionEnded, Rejected ConnectionEnded]
          \<and> driver_queries (snd (query_all st' [plain_query, ast_query])) = 1)"
proof -
  let ?st = "snd (query (connected []) plain_query)"
  have conn: "connection ?st = Some (pg_handle [])" and pend: "pending ?st = Some plain_query"
    and fail: "failed ?st = []" and one: "driver_queries ?st = 1"
    unfolding waiting_state by (simp_all add: connected_def driver_queries_def)
  obtain st' where st': "on_error ?st connection_reset = Inr st'"
    and f: "failed st' = failed ?st @ [(plain_query, error_event_translate connection_reset)]"
    and k: "killed st'"
    and d: "driver_queries st' = driver_queries ?st"
    and later: "\<And>qs. (\<forall>r \<in> set (fst (query_all st' qs)). r = Rejected ConnectionEnded)
                    \<and> driver_queries (snd (query_all st' qs)) = driver_queries st'"
    using error_event_kills_connection [OF conn pend, of connection_reset] by blast
  have len: "length (fst (query_all st' [plain_query, ast_query])) = 2"
    by (simp split: prod.splits)
  have all: "\<forall>r \<in> set (fst (query_all st' [plain_query, ast_query])). r = Rejected ConnectionEnded"
    using later by blast
  have res: "fst (query_all st' [plain_query, ast_query]) = [Rejected ConnectionEnded, Rejected ConnectionEnded]"
    using len all by (cases "fst (query_all st' [plain_query, ast_query])") (auto simp: length_Suc_conv)
  have tr: "error_event_translate connection_reset = FailedToConnectError connection_reset"
    by (simp add: error_event_translate_def connection_reset_def)
  show ?thesis
    using st' f k d later [of "[plain_query, ast_query]"] res pend fail one tr by simp
qed

section \<open>Ending the connection\<close>

text \<open>Queries call no callback of the \<^verbatim>\<open>end\<close> event.\<close>

lemma executeQuery_final_calls_nothing:
  "CallbackCalled cb \<in> set (trace (snd (executeQuery st ctx True))) \<longleftrightarrow> CallbackCalled cb \<in> set (trace st)"
  by (simp add: executeQuery.simps Let_def record_event_def
      split: option.splits list.splits driver_reply.splits)

lemma executeQuery_calls_nothing:
  "CallbackCalled cb \<in> set (trace (snd (executeQuery st ctx dontRetry))) \<longleftrightarrow> CallbackCalled cb \<in> set (trace st)"
proof (cases dontRetry)
  case True
  then show ?thesis by (simp add: executeQuery_final_calls_nothing)
next
  case False
  show ?thesis
  proof (cases "connection st")
    case None
    then show ?thesis by (simp add: executeQuery_no_handle)
  next
    case (Some c)
    show ?thesis
    proof (cases "script c")
      case Nil
      then show ?thesis using Some by (simp add: executeQuery.simps record_event_def)
    next
      case (Cons r rest)
      obtain err data where r: "r = Reply err data" by (cases r)
      let ?st1 = "record_event (DriverQuery (sql ctx) (values' ctx)) (st\<lparr>connection := Some (c\<lparr>script := rest\<rparr>)\<rparr>)"
      have one: "CallbackCalled cb \<in> set (trace ?st1) \<longleftrightarrow> CallbackCalled cb \<in> set (trace st)"
        by (simp add: record_event_def)
      have two: "CallbackCalled cb \<in> set (trace (record_event (LogUnexpected ctx data) ?st1))
                   \<longleftrightarrow> CallbackCalled cb \<in> set (trace st)"
        by (simp add: record_event_def)
      have three: "CallbackCalled cb \<in> set (trace (snd (executeQuery ?st1 ctx True)))
                   \<longleftrightarrow> CallbackCalled cb \<in> set (trace st)"
        using executeQuery_final_calls_nothing [of cb ?st1 ctx] one by simp
      show ?thesis
        using Some Cons r False one two three
        by (subst executeQuery.simps) (simp add: Let_def split: option.splits)
    qed
  qed
qed

lemma query_calls_nothing:
  "CallbackCalled cb \<in> set (trace (snd (query st ctx))) \<longleftrightarrow> CallbackCalled cb \<in> set (trace st)"
proof -
  let ?st1 = "record_event (SuperQuery ctx) st"
  have one: "CallbackCalled cb \<in> set (trace ?st1) \<longleftrightarrow> CallbackCalled cb \<in> set (trace st)"
    by (simp add: record_event_def)
  obtain r st2 where ex: "executeQuery ?st1 ctx False = (r, st2)"
    by (cases "executeQuery ?st1 ctx False")
  have two: "CallbackCalled cb \<in> set (trace st2) \<longleftrightarrow> CallbackCalled cb \<in> set (trace st)"
    using executeQuery_calls_nothing [of cb ?st1 ctx False] ex one by simp
  show ?thesis
    using one two ex by (simp add: query_def Let_def split: promise.splits)
qed

lemma query_keeps_killed: "killed (snd (query st ctx)) = killed st"
  using query_extends [of ctx st] by (simp add: extends_def record_event_def)

lemma query_all_resolves_nothing:
  "end_resolved (snd (query_all st qs)) cb \<longleftrightarrow> end_resolved st cb"
proof (induction qs arbitrary: st)
  case Nil
  then show ?case by simp
next
  case (Cons q qs)
  have "end_resolved (snd (query st q)) cb \<longleftrightarrow> end_resolved st cb"
    by (simp add: end_resolved_def query_calls_nothing query_keeps_killed)
  then show ?case
    using Cons.IH [of "snd (query st q)"] by (simp add: case_prod_beta)
qed

text \<open>
  \<^verbatim>\<open>endConnection\<close> does not test for a killed connection: without the handle it
  throws.
\<close>

lemma endConnection_no_handle:
  "connection st = None \<Longrightarrow> endConnection st cb = Inl TypeError"
  by (simp add: endConnection_def)

text \<open>
  C8. On a connection that is not killed and has its handle, \<^verbatim>\<open>end()\<close> asks the
  handle to end, and the callback that resolves it has not run when the call returns,
  nor does it run during any queries that follow: it runs when the handle emits its
  \<^verbatim>\<open>end\<close> event, and the connection is then ended and takes no more queries. On a
  killed connection the call changes nothing and raises no error.
\<close>

theorem end_waits_for_handle:
  "(\<not> killed st \<and> connection st = Some c \<and> CallbackCalled cb \<notin> set (trace st) \<longrightarrow>
      (\<exists>st'. end_method st cb = Inr st'
         \<and> DriverEnd \<in> set (trace st')
         \<and> \<not> end_resolved st' cb
         \<and> (\<forall>qs. \<not> end_resolved (snd (query_all st' qs)) cb)
         \<and> end_resolved (handle_ended st') cb
         \<and> ended (handle_ended st')
         \<and> (\<forall>ctx. fst (query (handle_ended st') ctx) = Rejected ConnectionEnded
                  \<and> driver_queries (snd (query (handle_ended st') ctx))
                      = driver_queries (handle_ended st'))))
   \<and> (killed st \<longrightarrow> end_method st cb = Inr st \<and> end_resolved st cb)"
proof -
  have live: "\<exists>st'. end_method st cb = Inr st'
         \<and> DriverEnd \<in> set (trace st')
         \<and> \<not> end_resolved st' cb
         \<and> (\<forall>qs. \<not> end_resolved (snd (query_all st' qs)) cb)
         \<and> end_resolved (handle_ended st') cb
         \<and> ended (handle_ended st')
         \<and> (\<forall>ctx. fst (query (handle_ended st') ctx) = Rejected ConnectionEnded
                  \<and> driver_queries (snd (query (handle_ended st') ctx))
                      = driver_queries (handle_ended st'))"
    if "\<not> killed st" and "connection st = Some c" and "CallbackCalled cb \<notin> set (trace st)"
  proof -
    let ?st' = "record_event DriverEnd (record_event (DriverOnceEnd cb)
        ((record_event (SuperEnd None) st)\<lparr>connection := Some (c\<lparr>end_listeners := end_listeners c @ [cb]\<rparr>)\<rparr>))"
    let ?f = "\<lambda>cb s. (record_event (CallbackCalled cb) s)\<lparr>ended := True\<rparr>"
    have run: "end_method st cb = Inr ?st'"
      using that by (simp add: end_method_def endConnection_def record_event_def)
    have req: "DriverEnd \<in> set (trace ?st')"
      by (simp add: record_event_def)
    have notyet: "\<not> end_resolved ?st' cb"
      using that by (simp add: end_resolved_def record_event_def)
    have waiting: "\<not> end_resolved (snd (query_all ?st' qs)) cb" for qs
      using notyet by (simp add: query_all_resolves_nothing)
    have called: "CallbackCalled cb \<in> set (trace (fold ?f (xs @ [cb]) s))
                  \<and> ended (fold ?f (xs @ [cb]) s)" for xs s
      by (simp add: record_event_def)
    have fin: "end_resolved (handle_ended ?st') cb" and e: "ended (handle_ended ?st')"
      using called by (simp_all add: end_resolved_def handle_ended_def record_event_def)
    have refused: "fst (query (handle_ended ?st') ctx) = Rejected ConnectionEnded
                  \<and> driver_queries (snd (query (handle_ended ?st') ctx))
                      = driver_queries (handle_ended ?st')" for ctx
      using e by (simp add: query_def Let_def record_event_def driver_queries_def)
    show ?thesis
      using run req notyet waiting fin e refused by blast
  qed
  have dead: "end_method st cb = Inr st \<and> end_resolved st cb" if "killed st"
    using that by (simp add: end_method_def end_resolved_def)
  show ?thesis
    using live dead by blast
qed

theorem end_waits_for_handle_witness:
  "(case end_method (connected []) 7 of
      Inl e \<Rightarrow> False
    | Inr st' \<Rightarrow> DriverEnd \<in> set (trace st') \<and> \<not> end_resolved st' 7 \<and> end_resolved (handle_ended st') 7)
   \<and> end_method ((connected [])\<lparr>connection := None, killed := True\<rparr>) 7
       = Inr ((connected [])\<lparr>connection := None, killed := True\<rparr>)"
  using end_waits_for_handle [of "connected []" "pg_handle []" 7]
    end_waits_for_handle [of "(connected [])\<lparr>connection := None, killed := True\<rparr>" "pg_handle []" 7]
  by (auto simp: connected_def)

section \<open>Identifier escaping\<close>

text \<open>
  C9. For an input that is not a string, or is the empty string, \<^verbatim>\<open>escapeId\<close> throws:
  its result is the exception, whatever the state of the connection. The method has no
  callback and returns no promise, so there is no other way for it to report the
  failure.
\<close>

theorem escapeId_throws:
  "\<not> type_string input \<or> input = JStr [] \<Longrightarrow> escapeId st input = Inl (CannotEscapeId input)"
  by (auto simp: escapeId_def)

theorem escapeId_throws_witness:
  "escapeId (connected []) (JNum 5) = Inl (CannotEscapeId (JNum 5))
   \<and> escapeId (connected []) JUndefined = Inl (CannotEscapeId JUndefined)
   \<and> escapeId (connected []) (JStr []) = Inl (CannotEscapeId (JStr []))"
  using escapeId_throws [of "JNum 5" "connected []"] escapeId_throws [of JUndefined "connected []"]
    escapeId_throws [of "JStr []" "connected []"]
  by simp

text \<open>
  A caller sees the difference in \<^verbatim>\<open>lock\<close>: with a supported mode and a table name
  that cannot be escaped, the call throws and its callback is not called.
\<close>

lemma lock_throws_on_bad_table:
  "lock (connected []) JUndefined (JStr []) (JStr ''LOCK_WRITE'') = (Inl (CannotEscapeId (JStr [])), connected [])"
  by (simp add: lock_def lockModes_get_def lockModes_def escapeId_def)

section \<open>lock\<close>

text \<open>
  For the two modes of the table, with identifiers that \<^verbatim>\<open>escapeId\<close> accepts, the
  statement passed to \<^verbatim>\<open>query\<close> is the expected one.
\<close>

lemma lock_supported_mode:
  assumes "lockType = JStr ''LOCK_WRITE'' \<and> phrase = ''SHARE ROW EXCLUSIVE''
           \<or> lockType = JStr ''LOCK_EXCLUSIVE'' \<and> phrase = ''ACCESS EXCLUSIVE''"
    and "connection st = Some c" and "t \<noteq> []"
    and "schema = JStr s \<and> s \<noteq> [] \<and> prefix = escapeIdentifier c s @ ''.''
         \<or> \<not> truthy schema \<and> prefix = []"
  shows "lock st schema (JStr t) lockType =
           (case query st \<lparr>sql = ''LOCK TABLE '' @ prefix @ escapeIdentifier c t @ '' IN '' @ phrase @ '' MODE;'',
                           values' = [], ast = False, mode = None\<rparr> of
              (r, st') \<Rightarrow> (Inr r, st'))"
  using assms by (auto simp: lock_def lockModes_get_def lockModes_def escapeId_def)

text \<open>
  A mode that names no property of the table, own or inherited, is refused through the
  callback, and the connection is left as it was.
\<close>

lemma lock_unknown_mode:
  "lockModes_get lockType = None \<Longrightarrow>
     lock st schema table lockType = (Inr (Rejected (InvalidLockType (to_string lockType))), st)"
  by (simp add: lock_def)

text \<open>
  C5 fails for a mode that is the name of a member of \<^verbatim>\<open>Object.prototype\<close>. The mode
  \<^verbatim>\<open>constructor\<close> is not one of the two supported modes, yet
  \<^verbatim>\<open>this.lockModes['constructor']\<close> is truthy: \<^verbatim>\<open>lock\<close> does not refuse it, and a
  statement that names no lock mode is sent to the driver.
\<close>

theorem lock_inherited_key:
  "map_of lockModes ''constructor'' = None
   \<and> fst (lock (connected []) JUndefined (JStr ''t'') (JStr ''constructor'')) = Inr Unsettled
   \<and> trace (snd (lock (connected []) JUndefined (JStr ''t'') (JStr ''constructor'')))
       = [SuperQuery \<lparr>sql = ''LOCK TABLE '' @ pg_escapeIdentifier ''t''
                             @ '' IN function Object() { [native code] } MODE;'',
                       values' = [], ast = False, mode = None\<rparr>,
          DriverQuery (''LOCK TABLE '' @ pg_escapeIdentifier ''t''
                         @ '' IN function Object() { [native code] } MODE;'') []]"
  by (simp add: lock_def lockModes_get_def lockModes_def object_prototype_def escapeId_def
      connected_def pg_handle_def query_def record_event_def executeQuery.simps)

section \<open>renderSQLQuery\<close>

text \<open>
  The loop ends for every statement and every list of values, provided the handle never
  escapes a value to the empty string (the \<^verbatim>\<open>pg\<close> client always adds quotes): while
  values remain the index grows, and afterwards the string no longer changes and the
  scan position moves forward.
\<close>

lemma scan_placeholder_bounds:
  "scan_placeholder xs i = Some (start, m) \<Longrightarrow> i \<le> start \<and> start < i + length xs"
proof (induction xs arbitrary: i)
  case Nil
  then show ?case by simp
next
  case (Cons x xs)
  show ?case
  proof (cases "x = CHR ''$'' \<and> takeWhile is_digit xs \<noteq> []")
    case True
    then show ?thesis using Cons.prems by auto
  next
    case False
    then have "scan_placeholder xs (Suc i) = Some (start, m)"
      using Cons.prems by auto
    then show ?thesis
      using Cons.IH [of "Suc i"] by simp
  qed
qed

lemma regex_exec_bounds:
  assumes "regex_exec s lastIndex = Some (start, m)"
  shows "lastIndex \<le> start \<and> start < length s"
proof -
  have le: "lastIndex \<le> length s" and sc: "scan_placeholder (drop lastIndex s) lastIndex = Some (start, m)"
    using assms by (simp_all add: regex_exec_def split: if_splits)
  show ?thesis
    using scan_placeholder_bounds [OF sc] le by simp
qed

lemma render_loop_after_values:
  assumes "connection st = Some c" and "escapeLiteral c ''undefined'' \<noteq> []" and "length vals \<le> index"
  shows "render_loop st vals s lastIndex index = Some (Inr s)"
  using assms(3)
proof (induction "length s - lastIndex" arbitrary: lastIndex index rule: less_induct)
  case less
  show ?case
  proof (cases "regex_exec s lastIndex")
    case None
    then show ?thesis by (subst render_loop.simps) simp
  next
    case (Some p)
    obtain start m where p: "p = (start, m)" by (cases p)
    let ?lit = "escapeLiteral c ''undefined''"
    have b: "lastIndex \<le> start" "start < length s"
      using regex_exec_bounds [of s lastIndex start m] Some p by simp_all
    have step: "render_loop st vals s lastIndex index
                  = render_loop st vals s (start + length m + length ?lit - length m) (Suc index)"
      using Some p less.prems assms(1) by (subst render_loop.simps) (simp add: escape_def)
    have "length s - (start + length m + length ?lit - length m) < length s - lastIndex"
      using b assms(2) by (cases ?lit) auto
    then show ?thesis
      using less.hyps [of "start + length m + length ?lit - length m" "Suc index"] less.prems step
      by simp
  qed
qed

lemma render_loop_returns:
  assumes "connection st = Some c" and "\<And>v. escapeLiteral c v \<noteq> []"
  shows "\<exists>r. render_loop st vals s lastIndex index = Some r"
proof (induction "length vals - index" arbitrary: s lastIndex index rule: less_induct)
  case less
  show ?case
  proof (cases "length vals \<le> index")
    case True
    then show ?thesis using render_loop_after_values [OF assms(1) assms(2)] by blast
  next
    case False
    show ?thesis
    proof (cases "regex_exec s lastIndex")
      case None
      then show ?thesis by (subst render_loop.simps) simp
    next
      case (Some p)
      obtain start m where p: "p = (start, m)" by (cases p)
      let ?lit = "escapeLiteral c (to_string (vals ! index))"
      have step: "render_loop st vals s lastIndex index
                    = render_loop st vals (js_replace s m ?lit)
                        (start + length m + length ?lit - length m) (Suc index)"
        using Some p False assms(1) by (subst render_loop.simps) (simp add: escape_def)
      have "length vals - Suc index < length vals - index"
        using False by simp
      then show ?thesis
        using less.hyps [of "Suc index"] step by simp
    qed
  qed
qed

lemma renderSQLQuery_returns:
  assumes "connection st = Some c" and "\<And>v. escapeLiteral c v \<noteq> []"
  shows "\<exists>r. renderSQLQuery st s vs = Some r"
  unfolding renderSQLQuery_def by (rule render_loop_returns [OF assms])

lemma pg_escapeLiteral_not_empty: "pg_escapeLiteral v \<noteq> []"
  by (simp add: pg_escapeLiteral_def)

lemma renderSQLQuery_returns_pg: "\<exists>r. renderSQLQuery (connected replies) s vs = Some r"
proof (rule renderSQLQuery_returns)
  show "connection (connected replies) = Some (pg_handle replies)"
    by (simp add: connected_def)
  show "escapeLiteral (pg_handle replies) v \<noteq> []" for v
    by (simp add: pg_handle_def pg_escapeLiteral_not_empty)
qed

text \<open>
  Where every escaped value is a plain literal, the loop computes the rendering of the
  spec: the first occurrence of the matched text is then the match itself, and the
  replacement text is taken as it is. The literals of the \<^verbatim>\<open>pg\<close> client are plain
  for the values that hold no dollar sign.
\<close>

lemma starts_none_append:
  "starts_none (xs @ ys) zs \<longleftrightarrow> starts_none xs (ys @ zs) \<and> starts_none ys zs"
  by (induction xs) auto

lemma takeWhile_append_nonempty:
  "takeWhile P (xs @ ys) \<noteq> [] \<longleftrightarrow> (if xs = [] then takeWhile P ys \<noteq> [] else takeWhile P xs \<noteq> [])"
  by (cases xs) auto

lemma starts_none_follower:
  assumes "takeWhile is_digit ys = []" and "takeWhile is_digit zs = []"
  shows "starts_none xs ys \<longleftrightarrow> starts_none xs zs"
  using assms by (induction xs) (auto simp: takeWhile_append_nonempty)

lemma starts_none_no_dollar:
  "CHR ''$'' \<notin> set xs \<Longrightarrow> starts_none xs ys"
  by (induction xs) auto

text \<open>What a successful scan says about the string.\<close>

lemma scan_placeholder_Some:
  assumes "scan_placeholder xs i = Some (start, m)"
  shows "\<exists>mid post. xs = mid @ m @ post \<and> start = i + length mid \<and> starts_none mid (m @ post)
           \<and> m = CHR ''$'' # takeWhile is_digit (tl m @ post) \<and> tl m \<noteq> []
           \<and> takeWhile is_digit post = []"
  using assms
proof (induction xs arbitrary: i)
  case Nil
  then show ?case by simp
next
  case (Cons x xs)
  show ?case
  proof (cases "x = CHR ''$'' \<and> takeWhile is_digit xs \<noteq> []")
    case True
    then have m: "m = x # takeWhile is_digit xs" and st: "start = i"
      using Cons.prems by auto
    let ?post = "dropWhile is_digit xs"
    have "x # xs = [] @ m @ ?post"
      using m by simp
    moreover have "takeWhile is_digit (tl m @ ?post) = takeWhile is_digit xs"
      using m by simp
    moreover have "takeWhile is_digit ?post = []"
      by (metis takeWhile_dropWhile_id takeWhile_eq_Nil_iff dropWhile_eq_Nil_conv hd_dropWhile list.set_sel(1))
    ultimately show ?thesis
      using True m st by (intro exI [of _ "[]"] exI [of _ ?post]) simp
  next
    case False
    then have "scan_placeholder xs (Suc i) = Some (start, m)"
      using Cons.prems by auto
    from Cons.IH [OF this] obtain mid post where
      h: "xs = mid @ m @ post" "start = Suc i + length mid" "starts_none mid (m @ post)"
         "m = CHR ''$'' # takeWhile is_digit (tl m @ post)" "tl m \<noteq> []" "takeWhile is_digit post = []"
      by blast
    have "starts_none (x # mid) (m @ post)"
      using False h(1,3) by simp
    then show ?thesis
      using h by (intro exI [of _ "x # mid"] exI [of _ post]) simp
  qed
qed

lemma scan_placeholder_None:
  "scan_placeholder xs i = None \<Longrightarrow> render_spec ls xs = xs"
proof (induction xs arbitrary: i)
  case Nil
  then show ?case by (cases ls) simp_all
next
  case (Cons x xs)
  then show ?case by (cases ls) (auto split: if_splits)
qed

lemma placeholder_digits:
  assumes "m = CHR ''$'' # takeWhile is_digit (tl m @ post)"
  shows "\<forall>d \<in> set (tl m). is_digit d"
proof -
  have "tl m = takeWhile is_digit (tl m @ post)"
    using assms by (metis list.sel(3))
  then show ?thesis
    by (metis set_takeWhileD)
qed

lemma not_digit_dollar: "\<not> is_digit CHR ''$''"
  by (simp add: is_digit_def)

lemma find_first_at:
  assumes "starts_none pre (m @ post)" and "m = CHR ''$'' # ds" and "ds \<noteq> []"
    and "\<forall>d \<in> set ds. is_digit d"
  shows "find_first m (pre @ m @ post) = Some (pre, post)"
  using assms(1)
proof (induction pre)
  case Nil
  then show ?case using assms(2) by simp
next
  case (Cons c pre)
  have no: "take (length m) (c # pre @ m @ post) \<noteq> m"
  proof
    assume eq: "take (length m) (c # pre @ m @ post) = m"
    then have c: "c = CHR ''$''" and rest: "take (length ds) (pre @ m @ post) = ds"
      using assms(2) by simp_all
    obtain d ds' where ds: "ds = d # ds'"
      using assms(3) by (cases ds) auto
    then obtain ys where ys: "pre @ m @ post = d # ys"
      using rest by (cases "pre @ m @ post") auto
    have "is_digit d"
      using assms(4) ds by simp
    then have "takeWhile is_digit (pre @ m @ post) \<noteq> []"
      using ys by simp
    then show False
      using Cons.prems c by simp
  qed
  have "starts_none pre (m @ post)"
    using Cons.prems by simp
  then show ?case
    using Cons.IH no by simp
qed

lemma render_spec_step:
  assumes "starts_none mid (m @ post)" and "m = CHR ''$'' # ds" and "ds \<noteq> []"
    and "\<forall>d \<in> set ds. is_digit d" and "takeWhile is_digit post = []"
  shows "render_spec (l # ls) (mid @ m @ post) = mid @ l @ render_spec ls post"
  using assms(1)
proof (induction mid)
  case Nil
  have tw: "takeWhile is_digit (ds @ post) \<noteq> []"
    using assms(3,4) by (cases ds) auto
  have "dropWhile is_digit (ds @ post) = dropWhile is_digit post"
    using assms(4) by (simp add: dropWhile_append2)
  also have "\<dots> = post"
    using assms(5) by (metis append_Nil takeWhile_dropWhile_id)
  finally show ?case
    using assms(2) tw by simp
next
  case (Cons c mid)
  then show ?case by auto
qed

lemma substitution_no_dollar:
  "CHR ''$'' \<notin> set r \<Longrightarrow> substitution m b a r = r"
  by (induction m b a r rule: substitution.induct) auto

lemma render_loop_plain:
  assumes conn: "connection st = Some c" and und: "escapeLiteral c ''undefined'' \<noteq> []"
    and plain: "\<forall>v \<in> set vals. plain_literal (escapeLiteral c (to_string v))"
  shows "starts_none pre rest \<Longrightarrow>
         render_loop st vals (pre @ rest) (length pre) index
           = Some (Inr (pre @ render_spec (drop index (map (\<lambda>v. escapeLiteral c (to_string v)) vals)) rest))"
proof (induction "length vals - index" arbitrary: pre rest index rule: less_induct)
  case less
  let ?lits = "map (\<lambda>v. escapeLiteral c (to_string v)) vals"
  show ?case
  proof (cases "length vals \<le> index")
    case True
    then show ?thesis
      using render_loop_after_values [OF conn und True] by simp
  next
    case False
    then have idx: "index < length vals" by simp
    let ?lit = "escapeLiteral c (to_string (vals ! index))"
    have lits: "drop index ?lits = ?lit # drop (Suc index) ?lits"
      using idx by (simp add: Cons_nth_drop_Suc [symmetric])
    have ok: "plain_literal ?lit"
      using plain idx by simp
    have ex: "regex_exec (pre @ rest) (length pre) = scan_placeholder rest (length pre)"
      by (simp add: regex_exec_def)
    show ?thesis
    proof (cases "scan_placeholder rest (length pre)")
      case None
      have "render_loop st vals (pre @ rest) (length pre) index = Some (Inr (pre @ rest))"
        using None ex by (subst render_loop.simps) simp
      then show ?thesis
        using scan_placeholder_None [OF None] by simp
    next
      case (Some p)
      obtain start m where p: "p = (start, m)" by (cases p)
      from scan_placeholder_Some [of rest "length pre" start m] Some p
      obtain mid post where
        h: "rest = mid @ m @ post" "start = length pre + length mid" "starts_none mid (m @ post)"
           "m = CHR ''$'' # takeWhile is_digit (tl m @ post)" "tl m \<noteq> []" "takeWhile is_digit post = []"
        by auto
      have m: "m = CHR ''$'' # tl m"
        using h(4) by (metis list.sel(3))
      have digits: "\<forall>d \<in> set (tl m). is_digit d"
        using placeholder_digits [OF h(4)] .
      have sn: "starts_none (pre @ mid) (m @ post)"
        using less.prems h(1,3) by (simp add: starts_none_append)
      have ff: "find_first m ((pre @ mid) @ m @ post) = Some (pre @ mid, post)"
        using find_first_at [OF sn m h(5) digits] .
      have repl: "js_replace (pre @ rest) m ?lit = (pre @ mid @ ?lit) @ post"
        using ff ok h(1) by (simp add: js_replace_def substitution_no_dollar plain_literal_def)
      have step: "render_loop st vals (pre @ rest) (length pre) index
                    = render_loop st vals ((pre @ mid @ ?lit) @ post) (length (pre @ mid @ ?lit)) (Suc index)"
        using Some p ex idx conn repl h(2)
        by (subst render_loop.simps) (simp add: escape_def add.assoc)
      have f1: "takeWhile is_digit (m @ post) = []"
        using m not_digit_dollar by (metis append_Cons takeWhile.simps(2))
      have f2: "takeWhile is_digit (?lit @ post) = []"
        using ok by (cases ?lit) (auto simp: plain_literal_def)
      have "starts_none (pre @ mid) (?lit @ post)"
        using sn starts_none_follower [OF f1 f2] by simp
      moreover have "starts_none ?lit post"
        using ok by (simp add: starts_none_no_dollar plain_literal_def)
      ultimately have sn': "starts_none (pre @ mid @ ?lit) post"
        using starts_none_append [of "pre @ mid" ?lit post] by simp
      have "length vals - Suc index < length vals - index"
        using idx by simp
      from less.hyps [OF this sn']
      have "render_loop st vals ((pre @ mid @ ?lit) @ post) (length (pre @ mid @ ?lit)) (Suc index)
              = Some (Inr ((pre @ mid @ ?lit) @ render_spec (drop (Suc index) ?lits) post))" .
      moreover have "render_spec (drop index ?lits) rest = mid @ ?lit @ render_spec (drop (Suc index) ?lits) post"
        using render_spec_step [OF h(3) m h(5) digits h(6)] lits h(1) by simp
      ultimately show ?thesis
        using step by simp
    qed
  qed
qed

lemma renderSQLQuery_plain_values:
  assumes "connection st = Some c" and "escapeLiteral c ''undefined'' \<noteq> []"
    and "\<forall>v \<in> set vals. plain_literal (escapeLiteral c (to_string v))"
  shows "renderSQLQuery st (Some s) (Some vals)
           = Some (Inr (render_spec (map (\<lambda>v. escapeLiteral c (to_string v)) vals) s))"
  using render_loop_plain [OF assms, of "[]" s 0] by (simp add: renderSQLQuery_def)

lemma pg_plain_literal:
  "CHR ''$'' \<notin> set v \<Longrightarrow> plain_literal (pg_escapeLiteral v)"
  by (auto simp: plain_literal_def pg_escapeLiteral_def is_digit_def)

lemma renderSQLQuery_pg_plain_values:
  assumes "\<forall>v \<in> set vals. CHR ''$'' \<notin> set (to_string v)"
  shows "renderSQLQuery (connected replies) (Some s) (Some vals)
           = Some (Inr (render_spec (map (\<lambda>v. pg_escapeLiteral (to_string v)) vals) s))"
proof -
  have conn: "connection (connected replies) = Some (pg_handle replies)"
    by (simp add: connected_def)
  have und: "escapeLiteral (pg_handle replies) ''undefined'' \<noteq> []"
    by (simp add: pg_handle_def pg_escapeLiteral_def)
  have plain: "\<forall>v \<in> set vals. plain_literal (escapeLiteral (pg_handle replies) (to_string v))"
    using assms by (simp add: pg_handle_def pg_plain_literal)
  show ?thesis
    using renderSQLQuery_plain_values [OF conn und plain, of s] by (simp add: pg_handle_def)
qed

text \<open>An instance, with a number among the values and a placeholder beyond them.\<close>

lemma render_plain_values:
  "renderSQLQuery (connected []) (Some ''SELECT $2, $1, $7'') (Some [JStr ''a'', JNum 42])
     = Some (Inr (''SELECT '' @ [CHR 0x27] @ ''a'' @ [CHR 0x27] @ '', ''
                  @ [CHR 0x27] @ ''42'' @ [CHR 0x27] @ '', $7''))"
  by (simp add: renderSQLQuery_def render_loop.simps regex_exec_def is_digit_def escape_def
      connected_def pg_handle_def pg_escapeLiteral_def js_replace_def show_nat.simps)

text \<open>
  C4 fails when an escaped value holds the text of a placeholder that comes later.
  \<^verbatim>\<open>sql.replace(match[0], ...)\<close> replaces the first occurrence of the matched text in
  the whole string, not the match: with the values \<^verbatim>\<open>pay $2 now\<close> and \<^verbatim>\<open>x\<close>, the
  second value is put inside the literal of the first, and the placeholder \<^verbatim>\<open>$2\<close>
  stays in the result. A value holding \<^verbatim>\<open>$&\<close> is not put in as it is either: the
  replacement expands it to the matched placeholder.
\<close>

theorem render_replaces_first_occurrence:
  "renderSQLQuery (connected []) (Some ''VALUES ($1, $2)'') (Some [JStr ''pay $2 now'', JStr ''x''])
     = Some (Inr (''VALUES ('' @ [CHR 0x27] @ ''pay '' @ [CHR 0x27] @ ''x'' @ [CHR 0x27] @ '' now''
                  @ [CHR 0x27] @ '', $2)''))
   \<and> renderSQLQuery (connected []) (Some ''SELECT $1'') (Some [JStr ''a$&b''])
     = Some (Inr (''SELECT '' @ [CHR 0x27] @ ''a$1b'' @ [CHR 0x27]))"
  by (simp add: renderSQLQuery_def render_loop.simps regex_exec_def is_digit_def escape_def
      connected_def pg_handle_def pg_escapeLiteral_def js_replace_def)

end
